theory Spec2Isabelle
  imports Complex_Main "HOL-Library.Multiset" "HOL-Library.Product_Lexorder"
begin

section \<open>The 4D extrusion of generator.py\<close>

text \<open>
  The embedding follows \<^verbatim>\<open>extrude_to_4d\<close> of \<^verbatim>\<open>src/generator.py\<close> (lines 97 to 150)
  statement by statement. The logger only records messages and is left out.

  \<^item> \<^verbatim>\<open>nodes\<close> is an N x 3 array: a list of coordinate triples. The coordinates are
    values of one type \<open>'a\<close> that has an addition (the array's floating-point type in
    the program); nothing else is asked of it.
  \<^item> \<^verbatim>\<open>elements\<close> is a T x 4 integer array: a list of index quadruples together with
    the integer type of the array, which the caller chooses. An index is the integer
    it stands for, a value of that type. The two additions of the program,
    \<^verbatim>\<open>elements + n\<close> and \<^verbatim>\<open>i + n\<close>, are NumPy's additions at the width of that type:
    the Python integer \<open>n\<close> must be a value of the type (NumPy raises
    \<^verbatim>\<open>OverflowError\<close> otherwise) and the sum wraps around. These are the rules of
    NumPy 2, where a Python integer takes the type of the array or scalar it is added to.
  \<^item> a face is a row of the F x 3 array that \<^verbatim>\<open>np.unique(faces, axis=0)\<close> returns.
\<close>

type_synonym 'a node3 = "'a \<times> 'a \<times> 'a"
type_synonym 'a node4 = "'a \<times> 'a \<times> 'a \<times> 'a"
type_synonym tet = "int \<times> int \<times> int \<times> int"
type_synonym face = "int \<times> int \<times> int"

text \<open>The error kinds the specification names, and Python's \<^verbatim>\<open>OverflowError\<close>.
  \<^verbatim>\<open>extrude_to_4d\<close> has no \<^verbatim>\<open>raise\<close> statement; the only failure of its own statements
  is the one of \<^verbatim>\<open>elements + n\<close>.\<close>

datatype error = InvalidMesh | InvalidParameter | IOFailure | OverflowError

subsection \<open>The integer type of the element array\<close>

text \<open>NumPy's signed and unsigned integer types. The unsigned 64-bit type is not
  covered.\<close>

datatype dtype = Int8 | Int16 | Int32 | Int64 | UInt8 | UInt16 | UInt32

fun bits :: "dtype \<Rightarrow> nat" where
  "bits Int8 = 8"
| "bits Int16 = 16"
| "bits Int32 = 32"
| "bits Int64 = 64"
| "bits UInt8 = 8"
| "bits UInt16 = 16"
| "bits UInt32 = 32"

fun is_signed :: "dtype \<Rightarrow> bool" where
  "is_signed Int8 = True"
| "is_signed Int16 = True"
| "is_signed Int32 = True"
| "is_signed Int64 = True"
| "is_signed UInt8 = False"
| "is_signed UInt16 = False"
| "is_signed UInt32 = False"

text \<open>\<^verbatim>\<open>np.iinfo(dt).min\<close> and \<^verbatim>\<open>np.iinfo(dt).max\<close>.\<close>

definition dt_min :: "dtype \<Rightarrow> int" where
  "dt_min dt = (if is_signed dt then - (2 ^ (bits dt - 1)) else 0)"

definition dt_max :: "dtype \<Rightarrow> int" where
  "dt_max dt = dt_min dt + 2 ^ bits dt - 1"

text \<open>The integer \<open>v\<close> is a value of the type.\<close>

definition fits :: "dtype \<Rightarrow> int \<Rightarrow> bool" where
  "fits dt v = (dt_min dt \<le> v \<and> v \<le> dt_max dt)"

text \<open>The value of the type that is congruent to \<open>v\<close> modulo \<open>2 ^ bits\<close>.\<close>

definition wrap :: "dtype \<Rightarrow> int \<Rightarrow> int" where
  "wrap dt v = (v - dt_min dt) mod 2 ^ bits dt + dt_min dt"

text \<open>The sum of an array entry \<open>a\<close> and the Python integer \<open>n\<close>, once \<open>n\<close> has been
  taken into the type: fixed-width addition, which wraps around.\<close>

definition np_add :: "dtype \<Rightarrow> int \<Rightarrow> int \<Rightarrow> int" where
  "np_add dt a n = wrap dt (a + n)"

text \<open>The default height function of the signature, \<^verbatim>\<open>lambda x, y, z: 0.0\<close>.\<close>

definition w_default :: "real \<Rightarrow> real \<Rightarrow> real \<Rightarrow> real" where
  "w_default x y z = 0"

subsection \<open>Library calls\<close>

text \<open>\<^verbatim>\<open>np.column_stack((nodes, ws))\<close>: row \<open>r\<close> of \<^verbatim>\<open>nodes\<close> extended by entry \<open>r\<close> of \<^verbatim>\<open>ws\<close>.
  Both arguments always have the same length here.\<close>

definition column_stack :: "'a node3 list \<Rightarrow> 'a list \<Rightarrow> 'a node4 list" where
  "column_stack nodes ws = map (\<lambda>((x, y, z), w). (x, y, z, w)) (zip nodes ws)"

text \<open>Python's \<^verbatim>\<open>sorted([a, b, c])\<close>: the three values in ascending order.\<close>

definition sorted3 :: "int \<Rightarrow> int \<Rightarrow> int \<Rightarrow> face" where
  "sorted3 a b c = (let s = sort [a, b, c] in (s ! 0, s ! 1, s ! 2))"

text \<open>\<^verbatim>\<open>np.unique(rows, axis=0)\<close>: NumPy sorts the rows (compared entry by entry, as the
  lexicographic order on triples does) and keeps a row where it differs from the row
  before it.\<close>

definition np_unique :: "face list \<Rightarrow> face list" where
  "np_unique rows = remdups_adj (sort rows)"

subsection \<open>The loops\<close>

text \<open>Lines 125 to 132: \<^verbatim>\<open>for tet in elements: faces.extend([...])\<close>, with the list
  \<^verbatim>\<open>faces\<close> built so far as the accumulator.\<close>

fun extract_faces :: "tet list \<Rightarrow> face list \<Rightarrow> face list" where
  "extract_faces [] faces = faces"
| "extract_faces ((t0, t1, t2, t3) # elements) faces =
     extract_faces elements
       (faces @ [sorted3 t0 t1 t2, sorted3 t0 t1 t3, sorted3 t0 t2 t3, sorted3 t1 t2 t3])"

text \<open>Lines 140 to 144: \<^verbatim>\<open>for face in faces:\<close> with three \<^verbatim>\<open>elements_4d.append\<close> calls.
  The entries \<open>i\<close>, \<open>j\<close>, \<open>k\<close> of a row of \<^verbatim>\<open>faces\<close> are NumPy scalars of the type of
  \<^verbatim>\<open>elements\<close>, so \<^verbatim>\<open>i + n\<close> is an addition of that type.\<close>

fun connect_faces :: "dtype \<Rightarrow> int \<Rightarrow> face list \<Rightarrow> tet list \<Rightarrow> tet list" where
  "connect_faces dt n [] elements_4d = elements_4d"
| "connect_faces dt n ((i, j, k) # faces) elements_4d =
     connect_faces dt n faces
       (((elements_4d @ [(i, j, k, np_add dt i n)]) @ [(i, j, k, np_add dt j n)])
          @ [(i, j, k, np_add dt k n)])"

subsection \<open>extrude\_to\_4d\<close>

text \<open>The first argument is the integer type of \<^verbatim>\<open>elements\<close>. Line 119 is the first
  statement that adds \<^verbatim>\<open>n\<close> to an array of that type: it raises when \<^verbatim>\<open>n\<close> is not a
  value of the type, after the node array has been built and before any face is
  extracted.\<close>

definition extrude_to_4d ::
  "dtype \<Rightarrow> ('a::plus) node3 list \<Rightarrow> tet list \<Rightarrow> 'a \<Rightarrow> ('a \<Rightarrow> 'a \<Rightarrow> 'a \<Rightarrow> 'a)
     \<Rightarrow> error + ('a node4 list \<times> tet list)" where
  "extrude_to_4d dt nodes elements extrusion_distance w_coord_func =
     (let n = int (length nodes);
          w_coords = map (\<lambda>(x, y, z). w_coord_func x y z) nodes;
          nodes_4d_base = column_stack nodes w_coords;
          nodes_4d_extruded =
            column_stack nodes (map (\<lambda>w. w + extrusion_distance) w_coords);
          nodes_4d = nodes_4d_base @ nodes_4d_extruded;
          elements_4d = [];
          elements_4d = elements_4d @ elements
      in if \<not> fits dt n then Inl OverflowError
         else
          (let elements_top =
                 map (\<lambda>(t0, t1, t2, t3).
                        (np_add dt t0 n, np_add dt t1 n, np_add dt t2 n, np_add dt t3 n))
                   elements;
               elements_4d = elements_4d @ elements_top;
               faces = extract_faces elements [];
               faces = np_unique faces;
               elements_4d = connect_faces dt n faces elements_4d
           in Inr (nodes_4d, elements_4d)))"

subsection \<open>Notions of the specification\<close>



text \<open>The four faces of one tetrahedron, in the order the loop body lists them.\<close>

definition tet_faces :: "tet \<Rightarrow> face list" where
  "tet_faces t = (case t of (a, b, c, d) \<Rightarrow>
     [sorted3 a b c, sorted3 a b d, sorted3 a c d, sorted3 b c d])"

text \<open>The three tetrahedra that one step of the last loop appends for a face, and a
  tetrahedron with every index shifted as line 119 shifts it.\<close>

definition np_prism :: "dtype \<Rightarrow> int \<Rightarrow> face \<Rightarrow> tet list" where
  "np_prism dt n f = (case f of (i, j, k) \<Rightarrow>
     [(i, j, k, np_add dt i n), (i, j, k, np_add dt j n), (i, j, k, np_add dt k n)])"

definition np_shift :: "dtype \<Rightarrow> int \<Rightarrow> tet \<Rightarrow> tet" where
  "np_shift dt n t = (case t of (a, b, c, d) \<Rightarrow>
     (np_add dt a n, np_add dt b n, np_add dt c n, np_add dt d n))"




text \<open>The unique faces of a mesh, as the program passes them to its last loop.\<close>

definition unique_faces :: "tet list \<Rightarrow> face list" where
  "unique_faces elements = np_unique (extract_faces elements [])"

text \<open>Lexicographic comparison of two faces by first, second, third index.\<close>

definition lex_less :: "face \<Rightarrow> face \<Rightarrow> bool" where
  "lex_less f g = (case f of (i, j, k) \<Rightarrow> case g of (i', j', k') \<Rightarrow>
     i < i' \<or> (i = i' \<and> (j < j' \<or> (j = j' \<and> k < k'))))"

text \<open>The vertices of a face and of a tetrahedron, with multiplicity.\<close>

definition face_verts :: "face \<Rightarrow> int multiset" where
  "face_verts f = (case f of (i, j, k) \<Rightarrow> {#i, j, k#})"

definition tet_verts :: "tet \<Rightarrow> int multiset" where
  "tet_verts t = (case t of (a, b, c, d) \<Rightarrow> {#a, b, c, d#})"

definition face_set :: "face \<Rightarrow> int set" where
  "face_set f = (case f of (i, j, k) \<Rightarrow> {i, j, k})"

definition ascending :: "face \<Rightarrow> bool" where
  "ascending f = (case f of (i, j, k) \<Rightarrow> i \<le> j \<and> j \<le> k)"

definition tet_distinct :: "tet \<Rightarrow> bool" where
  "tet_distinct t = (case t of (a, b, c, d) \<Rightarrow> distinct [a, b, c, d])"





section \<open>The loops in closed form\<close>

lemma extract_faces_acc:
  "extract_faces elements faces = faces @ concat (map tet_faces elements)"
  by (induction elements faces rule: extract_faces.induct) (simp_all add: tet_faces_def)

lemma connect_faces_acc:
  "connect_faces dt n faces elements_4d = elements_4d @ concat (map (np_prism dt n) faces)"
  by (induction dt n faces elements_4d rule: connect_faces.induct) (simp_all add: np_prism_def)


lemma extrude_to_4d_closed:
  "extrude_to_4d dt nodes elements d w =
     (if fits dt (int (length nodes)) then
        Inr (column_stack nodes (map (\<lambda>(x, y, z). w x y z) nodes)
               @ column_stack nodes (map (\<lambda>v. v + d) (map (\<lambda>(x, y, z). w x y z) nodes)),
             elements @ map (np_shift dt (int (length nodes))) elements
               @ concat (map (np_prism dt (int (length nodes))) (unique_faces elements)))
      else Inl OverflowError)"
proof -
  have shift: "(\<lambda>(t0, t1, t2, t3). (np_add dt t0 n, np_add dt t1 n, np_add dt t2 n, np_add dt t3 n))
      = np_shift dt n" for n :: int
    by (simp add: np_shift_def fun_eq_iff)
  show ?thesis
    by (simp add: extrude_to_4d_def Let_def connect_faces_acc unique_faces_def shift)
qed


lemma length_tet_faces: "length (concat (map tet_faces elements)) = 4 * length elements"
  by (induction elements) (simp_all add: tet_faces_def split: prod.splits)

lemma np_unique_set: "set (np_unique rows) = set rows"
  by (simp add: np_unique_def)

lemma sorted_remdups_adj_distinct:
  "sorted xs \<Longrightarrow> distinct (remdups_adj (xs :: 'a::linorder list))"
  by (induction xs rule: remdups_adj.induct) (auto split: if_split_asm)

lemma np_unique_distinct: "distinct (np_unique rows)"
  by (simp add: np_unique_def sorted_remdups_adj_distinct)

lemma np_unique_sorted: "sorted (np_unique rows)"
  by (simp add: np_unique_def)


section \<open>Faces\<close>

lemma sorted3_sort: "sorted3 a b c = (i, j, k) \<longleftrightarrow> sort [a, b, c] = [i, j, k]"
  by (auto simp add: sorted3_def Let_def)

lemma sorted3_ascending: "ascending (sorted3 a b c)"
proof -
  obtain i j k where f: "sorted3 a b c = (i, j, k)" by (cases "sorted3 a b c") auto
  then have "sort [a, b, c] = [i, j, k]" by (simp add: sorted3_sort)
  moreover have "sorted (sort [a, b, c])" by (rule sorted_sort)
  ultimately have "sorted [i, j, k]" by simp
  then show ?thesis by (simp add: f ascending_def)
qed

lemma sorted3_verts: "face_verts (sorted3 a b c) = {#a, b, c#}"
proof -
  obtain i j k where f: "sorted3 a b c = (i, j, k)" by (cases "sorted3 a b c") auto
  then have "sort [a, b, c] = [i, j, k]" by (simp add: sorted3_sort)
  moreover have "mset (sort [a, b, c]) = mset [a, b, c]" by (rule mset_sort)
  ultimately have "mset [i, j, k] = mset [a, b, c]" by simp
  then show ?thesis by (simp add: f face_verts_def)
qed

lemma sorted3_unique:
  assumes "ascending f" and "face_verts f = {#a, b, c#}"
  shows "f = sorted3 a b c"
proof -
  obtain i j k where f: "f = (i, j, k)" by (cases f) auto
  from assms have "sorted [i, j, k]" and "mset [i, j, k] = mset [a, b, c]"
    by (simp_all add: f ascending_def face_verts_def)
  then have "sort [a, b, c] = [i, j, k]" by (rule properties_for_sort[rotated])
  then have "sorted3 a b c = (i, j, k)" by (rule sorted3_sort[THEN iffD2])
  then show ?thesis by (simp only: f)
qed

lemma sub3_of_4:
  assumes "{#i, j, k#} \<subseteq># {#a, b, c, d::int#}"
  shows "{#i, j, k#} \<in> {{#a, b, c#}, {#a, b, d#}, {#a, c, d#}, {#b, c, d#}}"
proof -
  let ?M = "{#a, b, c, d#}" and ?F = "{#i, j, k#}"
  have "size (?M - ?F) = 1" using assms by (simp add: size_Diff_submset)
  then obtain x where x: "?M - ?F = {#x#}" using size_1_singleton_mset by blast
  have M: "?M = ?F + {#x#}" using assms x subset_mset.add_diff_inverse[of ?F ?M] by simp
  then have "x \<in># ?M" by simp
  then have xc: "x = a \<or> x = b \<or> x = c \<or> x = d" by auto
  have F: "?F = ?M - {#x#}" using M by simp
  from xc show ?thesis unfolding F by (auto simp: add_mset_commute)
qed

lemma set_tet_faces:
  "set (tet_faces t) = {f. ascending f \<and> face_verts f \<subseteq># tet_verts t}"
proof (cases t)
  case (fields a b c d)
  show ?thesis
  proof (intro set_eqI iffI)
    fix f assume "f \<in> set (tet_faces t)"
    then show "f \<in> {f. ascending f \<and> face_verts f \<subseteq># tet_verts t}"
      by (auto simp: fields tet_faces_def tet_verts_def sorted3_ascending sorted3_verts)
  next
    fix f assume "f \<in> {f. ascending f \<and> face_verts f \<subseteq># tet_verts t}"
    then have asc: "ascending f" and sub: "face_verts f \<subseteq># {#a, b, c, d#}"
      by (simp_all add: fields tet_verts_def)
    obtain i j k where f: "f = (i, j, k)" by (cases f) auto
    from sub have "{#i, j, k#} \<in> {{#a, b, c#}, {#a, b, d#}, {#a, c, d#}, {#b, c, d#}}"
      by (intro sub3_of_4) (simp add: f face_verts_def)
    then have "face_verts f = {#a, b, c#} \<or> face_verts f = {#a, b, d#}
        \<or> face_verts f = {#a, c, d#} \<or> face_verts f = {#b, c, d#}"
      by (simp add: f face_verts_def)
    with asc have "f = sorted3 a b c \<or> f = sorted3 a b d \<or> f = sorted3 a c d \<or> f = sorted3 b c d"
      by (auto dest: sorted3_unique)
    then show "f \<in> set (tet_faces t)" by (auto simp: fields tet_faces_def)
  qed
qed



subsection \<open>Blocks of the output\<close>

lemma drop_two_blocks: "drop (2 * length xs) (xs @ map f xs @ zs) = zs"
  by (simp add: mult_2)

lemma column_stack_map:
  "column_stack nodes (map g nodes) = map (\<lambda>(x, y, z). (x, y, z, g (x, y, z))) nodes"
  by (induction nodes) (auto simp: column_stack_def)

lemma lifted_layers:
  "extrude_to_4d dt nodes elements d w =
     (if fits dt (int (length nodes)) then
        Inr (map (\<lambda>(x, y, z). (x, y, z, w x y z)) nodes
               @ map (\<lambda>(x, y, z). (x, y, z, w x y z + d)) nodes,
             elements @ map (np_shift dt (int (length nodes))) elements
               @ concat (map (np_prism dt (int (length nodes))) (unique_faces elements)))
      else Inl OverflowError)"
proof -
  have base: "column_stack nodes (map (\<lambda>(x, y, z). w x y z) nodes)
      = map (\<lambda>(x, y, z). (x, y, z, w x y z)) nodes"
    using column_stack_map [of nodes "\<lambda>(x, y, z). w x y z"] by (simp add: case_prod_unfold)
  have top: "column_stack nodes (map (\<lambda>v. v + d) (map (\<lambda>(x, y, z). w x y z) nodes))
      = map (\<lambda>(x, y, z). (x, y, z, w x y z + d)) nodes"
    using column_stack_map [of nodes "\<lambda>(x, y, z). w x y z + d"]
    by (simp add: case_prod_unfold comp_def)
  show ?thesis by (simp only: extrude_to_4d_closed base top)
qed

subsection \<open>Equal vertices, equal rows\<close>

lemma extract_faces_single: "extract_faces [t] [] = tet_faces t"
  by (cases t) (simp add: tet_faces_def)

lemma face_set_verts: "face_set f = set_mset (face_verts f)"
  by (cases f) (auto simp: face_set_def face_verts_def)

lemma ascending_verts_eq:
  assumes "ascending f" and "ascending g" and "face_verts f = face_verts g"
  shows "f = g"
proof -
  obtain a b c where g: "g = (a, b, c)" by (cases g) auto
  from assms(3) have "face_verts f = {#a, b, c#}" by (simp add: g face_verts_def)
  with assms(1) have "f = sorted3 a b c" by (rule sorted3_unique)
  moreover from assms(2) have "g = sorted3 a b c"
    by (rule sorted3_unique) (simp add: g face_verts_def)
  ultimately show ?thesis by simp
qed

lemma strict_of_card3:
  assumes "ascending f" and "card (face_set f) = 3"
  shows "case f of (i, j, k) \<Rightarrow> sorted_wrt (<) [i, j, k]"
proof -
  obtain i j k where f: "f = (i, j, k)" by (cases f) auto
  from assms(2) have "i \<noteq> j \<and> j \<noteq> k \<and> i \<noteq> k"
    by (auto simp: f face_set_def card_insert_if split: if_splits)
  with assms(1) show ?thesis by (auto simp: f ascending_def)
qed

lemma ascending_set_eq:
  assumes "ascending f" and "ascending g" and "face_set f = face_set g"
    and "card (face_set f) = 3"
  shows "f = g"
proof -
  obtain i j k where f: "f = (i, j, k)" by (cases f) auto
  obtain a b c where g: "g = (a, b, c)" by (cases g) auto
  from assms have "sorted_wrt (<) [i, j, k]" and "sorted_wrt (<) [a, b, c]"
    using strict_of_card3 [of f] strict_of_card3 [of g] by (simp_all add: f g)
  moreover from assms(3) have "set [i, j, k] = set [a, b, c]"
    by (simp add: f g face_set_def)
  ultimately have "[i, j, k] = [a, b, c]" using strict_sorted_equal by blast
  then show ?thesis by (simp add: f g)
qed

lemma sorted3_set: "face_set (sorted3 a b c) = {a, b, c}"
  by (simp add: face_set_verts sorted3_verts)

lemma tet_faces_card3:
  assumes "tet_distinct t" and "f \<in> set (tet_faces t)"
  shows "card (face_set f) = 3"
proof -
  obtain a b c d where t: "t = (a, b, c, d)" by (cases t) auto
  from assms(1) have d: "a \<noteq> b" "a \<noteq> c" "a \<noteq> d" "b \<noteq> c" "b \<noteq> d" "c \<noteq> d"
    by (simp_all add: t tet_distinct_def)
  from assms(2) have "f = sorted3 a b c \<or> f = sorted3 a b d
      \<or> f = sorted3 a c d \<or> f = sorted3 b c d"
    by (simp add: t tet_faces_def)
  then show ?thesis
    by (elim disjE) (simp_all add: sorted3_set d)
qed

section \<open>Deduplication and assembly\<close>

lemma less_face_lex: "(f < g) = lex_less f g"
  by (cases f; cases g) (auto simp: lex_less_def less_prod_def)

lemma np_unique_lex: "sorted_wrt lex_less (np_unique rows)"
proof -
  have "sorted_wrt (<) (np_unique rows)"
    by (simp add: strict_sorted_iff np_unique_sorted np_unique_distinct)
  moreover have "((<) :: face \<Rightarrow> face \<Rightarrow> bool) = lex_less"
    by (simp add: fun_eq_iff less_face_lex)
  ultimately show ?thesis by simp
qed

lemma np_unique_cong: "set rows = set rows' \<Longrightarrow> np_unique rows = np_unique rows'"
  by (rule sorted_distinct_set_unique)
     (simp_all add: np_unique_sorted np_unique_distinct np_unique_set)

section \<open>Fixed-width sums\<close>









section \<open>Valid meshes\<close>







subsection \<open>Sums that do not wrap\<close>



subsection \<open>The three blocks of the output\<close>

lemma connecting_block:
  assumes "fits dt (int (length nodes))"
  shows "\<exists>nodes_4d elements_4d.
     extrude_to_4d dt nodes elements d w = Inr (nodes_4d, elements_4d) \<and>
     take (length elements) elements_4d = elements \<and>
     take (length elements) (drop (length elements) elements_4d)
       = map (np_shift dt (int (length nodes))) elements \<and>
     drop (2 * length elements) elements_4d
       = concat (map (np_prism dt (int (length nodes))) (unique_faces elements))"
  using assms by (simp add: extrude_to_4d_closed drop_two_blocks)


section \<open>The claims\<close>







text \<open>
  C7 as stated fails: the program never looks at the sign of the distance. With distance
  0 on the single-tetrahedron mesh it returns the mesh below, whose two node layers
  coincide, and no error.
\<close>

theorem zero_distance_counterexample:
  "extrude_to_4d Int32 [(0::real, 0, 0), (1, 0, 0), (0, 1, 0), (0, 0, 1)] [(0, 1, 2, 3)] 0
     w_default
     = Inr ([(0, 0, 0, 0), (1, 0, 0, 0), (0, 1, 0, 0), (0, 0, 1, 0),
             (0, 0, 0, 0), (1, 0, 0, 0), (0, 1, 0, 0), (0, 0, 1, 0)],
            [(0, 1, 2, 3), (4, 5, 6, 7),
             (0, 1, 2, 4), (0, 1, 2, 5), (0, 1, 2, 6),
             (0, 1, 3, 4), (0, 1, 3, 5), (0, 1, 3, 7),
             (0, 2, 3, 4), (0, 2, 3, 6), (0, 2, 3, 7),
             (1, 2, 3, 5), (1, 2, 3, 6), (1, 2, 3, 7)])"
  by (simp add: extrude_to_4d_def column_stack_def w_default_def np_unique_def sorted3_def
      less_eq_prod_def fits_def dt_min_def dt_max_def np_add_def wrap_def)

text \<open>
  C7, amended. For every input and every extrusion distance, also one that is zero or
  negative, the extrusion never fails with \<^verbatim>\<open>InvalidParameter\<close>: the distance is not
  checked, and whether a mesh is returned does not depend on it (one is returned
  exactly when the node count is a value of the index type). With distance 0 (a neutral
  element of the addition) the top layer of nodes of that mesh equals the base layer.
\<close>

theorem distance_unchecked:
  "extrude_to_4d dt nodes elements d w \<noteq> Inl InvalidParameter \<and>
   (\<exists>nodes_4d elements_4d. extrude_to_4d dt nodes elements d w = Inr (nodes_4d, elements_4d))
     = fits dt (int (length nodes)) \<and>
   (fits dt (int (length nodes)) \<longrightarrow>
     (\<exists>nodes_4d elements_4d.
        extrude_to_4d dt nodes elements (0::'a::monoid_add) w = Inr (nodes_4d, elements_4d) \<and>
        drop (length nodes) nodes_4d = take (length nodes) nodes_4d))"
  by (simp add: lifted_layers)

text \<open>C7, at the single-tetrahedron mesh with distance 0.\<close>

theorem distance_unchecked_witness:
  "\<exists>nodes_4d elements_4d.
     extrude_to_4d Int32 [(0::real, 0, 0), (1, 0, 0), (0, 1, 0), (0, 0, 1)] [(0, 1, 2, 3)] 0
       w_default = Inr (nodes_4d, elements_4d) \<and>
     drop 4 nodes_4d = take 4 nodes_4d"
proof -
  let ?nodes = "[(0, 0, 0), (1, 0, 0), (0, 1, 0), (0, 0, 1)] :: real node3 list"
  have f: "fits Int32 (int (length ?nodes))"
    by (simp add: fits_def dt_min_def dt_max_def)
  from distance_unchecked [of Int32 ?nodes "[(0, 1, 2, 3)]" 0 w_default]
  have "fits Int32 (int (length ?nodes)) \<longrightarrow>
    (\<exists>nodes_4d elements_4d.
       extrude_to_4d Int32 ?nodes [(0, 1, 2, 3)] 0 w_default = Inr (nodes_4d, elements_4d) \<and>
       drop (length ?nodes) nodes_4d = take (length ?nodes) nodes_4d)"
    by (elim conjE) assumption
  then have "\<exists>nodes_4d elements_4d.
       extrude_to_4d Int32 ?nodes [(0, 1, 2, 3)] 0 w_default = Inr (nodes_4d, elements_4d) \<and>
       drop (length ?nodes) nodes_4d = take (length ?nodes) nodes_4d"
    using f by (rule mp)
  moreover have "length ?nodes = 4" by simp
  ultimately show ?thesis by (simp only:)
qed

text \<open>
  C3. For every tetrahedron \<open>(a, b, c, d)\<close>, face extraction produces exactly four faces,
  with the vertices \<open>{a, b, c}\<close>, \<open>{a, b, d}\<close>, \<open>{a, c, d}\<close>, \<open>{b, c, d}\<close> in this order,
  each with its three indices ascending. Two extracted faces with the same vertices
  are the same row, whatever tetrahedra they come from and in whatever order these list
  their vertices: with the same vertices counted with multiplicity for all rows, and
  with the same vertex set when the tetrahedron has four distinct indices.
\<close>

theorem face_extraction:
  "(\<exists>f1 f2 f3 f4. extract_faces [(a, b, c, d)] [] = [f1, f2, f3, f4] \<and>
      face_verts f1 = {#a, b, c#} \<and> face_verts f2 = {#a, b, d#} \<and>
      face_verts f3 = {#a, c, d#} \<and> face_verts f4 = {#b, c, d#} \<and>
      ascending f1 \<and> ascending f2 \<and> ascending f3 \<and> ascending f4) \<and>
   (\<forall>t' f g. f \<in> set (extract_faces [(a, b, c, d)] []) \<and> g \<in> set (extract_faces [t'] []) \<and>
      face_verts f = face_verts g \<longrightarrow> f = g) \<and>
   (\<forall>t' f g. distinct [a, b, c, d] \<and>
      f \<in> set (extract_faces [(a, b, c, d)] []) \<and> g \<in> set (extract_faces [t'] []) \<and>
      face_set f = face_set g \<longrightarrow> f = g)"
proof (intro conjI allI impI)
  show "\<exists>f1 f2 f3 f4. extract_faces [(a, b, c, d)] [] = [f1, f2, f3, f4] \<and>
      face_verts f1 = {#a, b, c#} \<and> face_verts f2 = {#a, b, d#} \<and>
      face_verts f3 = {#a, c, d#} \<and> face_verts f4 = {#b, c, d#} \<and>
      ascending f1 \<and> ascending f2 \<and> ascending f3 \<and> ascending f4"
    by (simp add: sorted3_verts sorted3_ascending)
next
  fix t' f g
  assume "f \<in> set (extract_faces [(a, b, c, d)] []) \<and> g \<in> set (extract_faces [t'] []) \<and>
      face_verts f = face_verts g"
  then have "ascending f" and "ascending g" and "face_verts f = face_verts g"
    by (simp_all add: extract_faces_single set_tet_faces)
  then show "f = g" by (rule ascending_verts_eq)
next
  fix t' f g
  assume h: "distinct [a, b, c, d] \<and>
      f \<in> set (extract_faces [(a, b, c, d)] []) \<and> g \<in> set (extract_faces [t'] []) \<and>
      face_set f = face_set g"
  then have "tet_distinct (a, b, c, d)" and f: "f \<in> set (tet_faces (a, b, c, d))"
    and g: "g \<in> set (tet_faces t')" and eq: "face_set f = face_set g"
    by (simp_all add: tet_distinct_def extract_faces_single)
  from \<open>tet_distinct (a, b, c, d)\<close> f have "card (face_set f) = 3" by (rule tet_faces_card3)
  moreover from f g have "ascending f" and "ascending g"
    by (simp_all add: set_tet_faces)
  ultimately show "f = g" using eq by (simp add: ascending_set_eq)
qed

text \<open>C3, at the tetrahedra \<open>(0, 1, 2, 3)\<close> and \<open>(3, 2, 1, 0)\<close>: the first face of the one
  and the last face of the other have the vertex set \<open>{0, 1, 2}\<close> and are the same row.\<close>

theorem face_extraction_witness:
  "extract_faces [(0, 1, 2, 3)] [] ! 0 = extract_faces [(3, 2, 1, 0)] [] ! 3"
proof -
  let ?f = "extract_faces [(0, 1, 2, 3)] [] ! 0" and ?g = "extract_faces [(3, 2, 1, 0)] [] ! 3"
  have "distinct [0, 1, 2, 3::int] \<and> ?f \<in> set (extract_faces [(0, 1, 2, 3)] []) \<and>
      ?g \<in> set (extract_faces [(3, 2, 1, 0)] []) \<and> face_set ?f = face_set ?g"
    by (simp add: sorted3_def face_set_def)
  with face_extraction [of 0 1 2 3] show ?thesis by blast
qed

text \<open>
  C4. The loop over the T tetrahedra collects \<open>4 * T\<close> canonical faces. Deduplication
  keeps each distinct one of them exactly once: the unique faces are pairwise distinct
  and are the same set of faces. They are sorted lexicographically by first, second,
  third index, and in this order the last loop turns them into the connecting
  tetrahedra of every mesh the extrusion returns. The result depends on the set of
  collected faces only, so it is the same for every run on the same input.
\<close>

theorem face_deduplication:
  "length (extract_faces elements []) = 4 * length elements \<and>
   distinct (unique_faces elements) \<and>
   set (unique_faces elements) = set (extract_faces elements []) \<and>
   sorted_wrt lex_less (unique_faces elements) \<and>
   (fits dt (int (length nodes)) \<longrightarrow>
     (\<exists>nodes_4d elements_4d.
        extrude_to_4d dt nodes elements d w = Inr (nodes_4d, elements_4d) \<and>
        drop (2 * length elements) elements_4d
          = connect_faces dt (int (length nodes)) (unique_faces elements) [])) \<and>
   (\<forall>elements'. set (extract_faces elements' []) = set (extract_faces elements [])
      \<longrightarrow> unique_faces elements' = unique_faces elements)"
proof (intro conjI allI impI)
  show "length (extract_faces elements []) = 4 * length elements"
    by (simp add: extract_faces_acc length_tet_faces)
  show "distinct (unique_faces elements)"
    by (simp add: unique_faces_def np_unique_distinct)
  show "set (unique_faces elements) = set (extract_faces elements [])"
    by (simp only: unique_faces_def np_unique_set)
  show "sorted_wrt lex_less (unique_faces elements)"
    by (simp only: unique_faces_def np_unique_lex)
next
  assume "fits dt (int (length nodes))"
  then show "\<exists>nodes_4d elements_4d.
      extrude_to_4d dt nodes elements d w = Inr (nodes_4d, elements_4d) \<and>
      drop (2 * length elements) elements_4d
        = connect_faces dt (int (length nodes)) (unique_faces elements) []"
    using connecting_block [of dt nodes elements d w] by (auto simp: connect_faces_acc)
next
  fix elements'
  assume "set (extract_faces elements' []) = set (extract_faces elements [])"
  then show "unique_faces elements' = unique_faces elements"
    unfolding unique_faces_def by (rule np_unique_cong)
qed

text \<open>C4, at two tetrahedra that share the face \<open>{0, 1, 2}\<close>, listed in two orders.\<close>

theorem face_deduplication_witness:
  "unique_faces [(0, 1, 2, 4), (3, 2, 1, 0)] =
     [(0, 1, 2), (0, 1, 3), (0, 1, 4), (0, 2, 3), (0, 2, 4), (1, 2, 3), (1, 2, 4)]"
proof -
  have seteq: "set (extract_faces [(0, 1, 2, 4), (3, 2, 1, 0)] [])
      = set (extract_faces [(0, 1, 2, 3), (0, 1, 2, 4)] [])"
    by (simp add: sorted3_def) blast
  have val: "unique_faces [(0, 1, 2, 3), (0, 1, 2, 4)] =
     [(0, 1, 2), (0, 1, 3), (0, 1, 4), (0, 2, 3), (0, 2, 4), (1, 2, 3), (1, 2, 4)]"
    by (simp add: unique_faces_def np_unique_def sorted3_def less_eq_prod_def)
  have "\<forall>elements'. set (extract_faces elements' [])
        = set (extract_faces [(0, 1, 2, 3), (0, 1, 2, 4)] [])
      \<longrightarrow> unique_faces elements' = unique_faces [(0, 1, 2, 3), (0, 1, 2, 4)]"
    using face_deduplication [of "[(0, 1, 2, 3), (0, 1, 2, 4)]" Int32 "[]::real node3 list"
        1 w_default]
    by (elim conjE) assumption
  then have "unique_faces [(0, 1, 2, 4), (3, 2, 1, 0)] = unique_faces [(0, 1, 2, 3), (0, 1, 2, 4)]"
    using seteq by (elim allE impE) assumption+
  then show ?thesis by (simp only: val)
qed













end
